theory Spec2Isabelle
  imports Complex_Main
begin

unbundle bit_operations_syntax

section \<open>The LCD driver of \<open>reciever.py\<close>\<close>

text \<open>
  The script drives a 16x2 character LCD behind a PCF8574 I2C expander and mirrors a
  push button onto an LED. Everything it does is an effect on the outside world, so the
  embedding threads a \<open>world\<close> through every function: the global \<open>LCD_BACKLIGHT\<close>,
  the levels of the GPIO pins, and the trace of the calls made to \<open>bus.write_byte\<close> and
  \<open>time.sleep\<close>, oldest first.

  Python integers are \<open>int\<close>, with \<open>&\<close>, \<open>|\<close>, \<open>~\<close> and \<open><<\<close> the bit operations
  of \<open>int\<close>. A Python string is the list of its code points, so that \<open>len\<close> counts
  what Python counts and \<open>ord\<close> may exceed 255. A duration passed to \<open>time.sleep\<close>
  is a rational number of seconds; the decimal literals \<open>0.0005\<close> are read as the exact
  fraction. The floats that are not numbers of seconds (\<open>inf\<close>, \<open>nan\<close>), which
  \<open>time.sleep\<close> refuses, have no value in this type.

  The I2C transport is taken to accept every byte: a transport fault is an exception of
  the \<open>smbus\<close> module, outside this file. The exceptions that the interpreter itself
  can raise in this code are part of the model: indexing a string out of range, the
  remainder by zero, and \<open>time.sleep\<close> of a duration that is negative or too large.
\<close>

subsection \<open>Data\<close>

type_synonym pychar = int
type_synonym pystr = "pychar list"

datatype error = IndexError | ZeroDivisionError | ValueError | OverflowError

text \<open>
  Modelled from the spec: the two pin levels of the GPIO facility, \<open>GPIO.LOW\<close> and
  \<open>GPIO.HIGH\<close> of the module \<open>rpi_gpio\<close>, which is imported and not part of the source.
\<close>

datatype level = LOW | HIGH

datatype event = BusWrite int int | Sleep rat

record world =
  LCD_BACKLIGHT :: int
  gpio :: "int \<Rightarrow> level"
  trace :: "event list"

type_synonym stmt = "world \<Rightarrow> error + world"

subsection \<open>Constants\<close>

definition I2C_ADDR :: int where "I2C_ADDR = 0x27"
definition LCD_WIDTH :: int where "LCD_WIDTH = 16"
definition LCD_CHR :: int where "LCD_CHR = 1"
definition LCD_CMD :: int where "LCD_CMD = 0"
definition LCD_LINE_1 :: int where "LCD_LINE_1 = 0x80"
definition LCD_LINE_2 :: int where "LCD_LINE_2 = 0xC0"
definition ENABLE :: int where "ENABLE = 0b00000100"
definition E_PULSE :: rat where "E_PULSE = 5 / 10000"
definition E_DELAY :: rat where "E_DELAY = 5 / 10000"

text \<open>The state in which the module starts: \<open>LCD_BACKLIGHT = 0x00\<close>.\<close>

definition initial_world :: "(int \<Rightarrow> level) \<Rightarrow> world" where
  "initial_world pins = \<lparr>LCD_BACKLIGHT = 0x00, gpio = pins, trace = []\<rparr>"

subsection \<open>Python and library primitives\<close>

text \<open>Sequencing of statements: an exception ends the run.\<close>

definition seq :: "stmt \<Rightarrow> stmt \<Rightarrow> stmt" where
  "seq f g s = (case f s of Inl e \<Rightarrow> Inl e | Inr s' \<Rightarrow> g s')"

fun for_each :: "'a list \<Rightarrow> ('a \<Rightarrow> stmt) \<Rightarrow> stmt" where
  "for_each [] body s = Inr s"
| "for_each (x # xs) body s =
     (case body x s of Inl e \<Rightarrow> Inl e | Inr s' \<Rightarrow> for_each xs body s')"

text \<open>\<open>range(n)\<close>: empty when \<open>n\<close> is not positive.\<close>

definition range_py :: "int \<Rightarrow> int list" where
  "range_py n = map int [0..<nat n]"

definition len :: "pystr \<Rightarrow> int" where
  "len s = int (length s)"

definition ord :: "pychar \<Rightarrow> int" where
  "ord c = c"

definition space :: pychar where
  "space = 32"

text \<open>\<open>s.ljust(w, fill)\<close>: \<open>s\<close> itself when it is already \<open>w\<close> long or longer.\<close>

definition ljust :: "pystr \<Rightarrow> int \<Rightarrow> pychar \<Rightarrow> pystr" where
  "ljust s w fill = s @ replicate (nat (w - len s)) fill"

text \<open>\<open>s[i]\<close>: a negative index counts from the end, and out of range raises.\<close>

definition getitem :: "pystr \<Rightarrow> int \<Rightarrow> error + pychar" where
  "getitem s i =
     (let j = (if i < 0 then len s + i else i)
      in if 0 \<le> j \<and> j < len s then Inr (s ! nat j) else Inl IndexError)"

definition mod_py :: "int \<Rightarrow> int \<Rightarrow> error + int" where
  "mod_py a b = (if b = 0 then Inl ZeroDivisionError else Inr (a mod b))"

definition bus_write_byte :: "int \<Rightarrow> int \<Rightarrow> stmt" where
  "bus_write_byte addr data s = Inr (s\<lparr>trace := trace s @ [BusWrite addr data]\<rparr>)"

text \<open>
  \<open>time.sleep(d)\<close>: the interpreter first converts the duration to a signed 64-bit
  count of nanoseconds, rounding away from zero, and raises \<open>OverflowError\<close> when the
  count does not fit; a count that fits and is negative raises \<open>ValueError\<close>. The bound
  is taken on the exact product: the rounding of the float product, which matters only
  within a microsecond of the bound, is not modelled.
\<close>

definition time_sleep :: "rat \<Rightarrow> stmt" where
  "time_sleep d s =
     (if d * 10 ^ 9 < - (2 ^ 63) \<or> 2 ^ 63 - 1 < d * 10 ^ 9 then Inl OverflowError
      else if d < 0 then Inl ValueError
      else Inr (s\<lparr>trace := trace s @ [Sleep d]\<rparr>))"

definition GPIO_input :: "int \<Rightarrow> world \<Rightarrow> level" where
  "GPIO_input pin s = gpio s pin"

definition GPIO_output :: "int \<Rightarrow> level \<Rightarrow> world \<Rightarrow> world" where
  "GPIO_output pin v s = s\<lparr>gpio := (gpio s)(pin := v)\<rparr>"

subsection \<open>The driver\<close>

definition lcd_toggle_enable :: "int \<Rightarrow> stmt" where
  "lcd_toggle_enable bits =
     seq (time_sleep E_DELAY)
    (seq (bus_write_byte I2C_ADDR (bits OR ENABLE))
    (seq (time_sleep E_PULSE)
    (seq (bus_write_byte I2C_ADDR (bits AND NOT ENABLE))
         (time_sleep E_DELAY))))"

definition lcd_byte :: "int \<Rightarrow> int \<Rightarrow> stmt" where
  "lcd_byte bits mode s =
     (let bits_high = mode OR (bits AND 0xF0) OR LCD_BACKLIGHT s;
          bits_low = mode OR (push_bit 4 bits AND 0xF0) OR LCD_BACKLIGHT s
      in seq (bus_write_byte I2C_ADDR bits_high)
        (seq (lcd_toggle_enable bits_high)
        (seq (bus_write_byte I2C_ADDR bits_low)
             (lcd_toggle_enable bits_low))) s)"

definition lcd_init :: stmt where
  "lcd_init =
     seq (lcd_byte 0b00110011 LCD_CMD)
    (seq (lcd_byte 0b00110010 LCD_CMD)
    (seq (lcd_byte 0b00000110 LCD_CMD)
    (seq (lcd_byte 0b00001100 LCD_CMD)
    (seq (lcd_byte 0b00101000 LCD_CMD)
    (seq (lcd_byte 0b00000001 LCD_CMD)
         (time_sleep E_DELAY))))))"

definition lcd_string :: "pystr \<Rightarrow> int \<Rightarrow> stmt" where
  "lcd_string message line =
     (let message = ljust message LCD_WIDTH space
      in seq (lcd_byte line LCD_CMD)
             (for_each (range_py LCD_WIDTH)
                (\<lambda>i s. case getitem message i of
                          Inl e \<Rightarrow> Inl e
                        | Inr c \<Rightarrow> lcd_byte (ord c) LCD_CHR s)))"

text \<open>
  The innermost loop of \<open>marquee_smooth\<close> builds the window in a local variable; it
  touches no global state, so it is a function of \<open>scroll_text\<close> and \<open>pos\<close> that may
  raise.
\<close>

fun build_window :: "pystr \<Rightarrow> int \<Rightarrow> int list \<Rightarrow> pystr \<Rightarrow> error + pystr" where
  "build_window scroll_text pos [] window = Inr window"
| "build_window scroll_text pos (i # is) window =
     (case mod_py (pos + i) (len scroll_text) of
        Inl e \<Rightarrow> Inl e
      | Inr k \<Rightarrow>
          (case getitem scroll_text k of
             Inl e \<Rightarrow> Inl e
           | Inr c \<Rightarrow> build_window scroll_text pos is (window @ [c])))"

definition marquee_smooth :: "pystr \<Rightarrow> int \<Rightarrow> rat \<Rightarrow> int \<Rightarrow> stmt" where
  "marquee_smooth message line delay cycles =
     (let message = (if len message < LCD_WIDTH then ljust message LCD_WIDTH space
                     else message);
          scroll_text = message @ replicate (nat LCD_WIDTH) space;
          length = len message + LCD_WIDTH
      in for_each (range_py cycles)
           (\<lambda>cycle. for_each (range_py length)
              (\<lambda>pos s. case build_window scroll_text pos (range_py LCD_WIDTH) [] of
                          Inl e \<Rightarrow> Inl e
                        | Inr window \<Rightarrow>
                            seq (lcd_string window line) (time_sleep delay) s)))"

definition buttonPressed :: "int \<Rightarrow> world \<Rightarrow> world" where
  "buttonPressed pin s =
     (if GPIO_input 20 s = LOW then GPIO_output 16 HIGH s
      else GPIO_output 16 LOW s)"

subsection \<open>Describing what a run adds to the trace\<close>

text \<open>
  The statements below are compared with plain lists of events. \<open>emit es\<close> is the
  statement that appends \<open>es\<close> to the trace and changes nothing else.
\<close>

definition emit :: "event list \<Rightarrow> stmt" where
  "emit es s = Inr (s\<lparr>trace := trace s @ es\<rparr>)"

text \<open>The events of one enable-latch pulse on a byte already on the bus.\<close>

definition latch_events :: "int \<Rightarrow> event list" where
  "latch_events bits =
     [Sleep E_DELAY, BusWrite I2C_ADDR (bits OR ENABLE), Sleep E_PULSE,
      BusWrite I2C_ADDR (bits AND NOT ENABLE), Sleep E_DELAY]"

text \<open>The events of one byte transfer: upper nibble, latch, lower nibble, latch.\<close>

definition byte_events :: "int \<Rightarrow> int \<Rightarrow> int \<Rightarrow> event list" where
  "byte_events backlight bits mode =
     (let bits_high = mode OR (bits AND 0xF0) OR backlight;
          bits_low = mode OR (push_bit 4 bits AND 0xF0) OR backlight
      in BusWrite I2C_ADDR bits_high # latch_events bits_high @
         BusWrite I2C_ADDR bits_low # latch_events bits_low)"

text \<open>The data bytes of the bus writes of a trace, in order.\<close>

fun bus_writes :: "event list \<Rightarrow> int list" where
  "bus_writes [] = []"
| "bus_writes (BusWrite addr data # es) = data # bus_writes es"
| "bus_writes (Sleep d # es) = bus_writes es"

text \<open>
  The number of bus writes a statement adds to the trace when it returns; \<open>None\<close>
  when it raises.
\<close>

definition transactions :: "stmt \<Rightarrow> world \<Rightarrow> nat option" where
  "transactions f s =
     (case f s of
        Inl e \<Rightarrow> None
      | Inr s' \<Rightarrow> Some (length (bus_writes (drop (length (trace s)) (trace s')))))"

text \<open>The sixteen characters that \<open>lcd_string\<close> puts on the line.\<close>

definition shown :: "pystr \<Rightarrow> pystr" where
  "shown message = take 16 (ljust message LCD_WIDTH space)"

text \<open>The events of one \<open>lcd_string\<close>: the line command, then one transfer per character.\<close>

definition string_events :: "int \<Rightarrow> pystr \<Rightarrow> int \<Rightarrow> event list" where
  "string_events backlight message line =
     byte_events backlight line LCD_CMD @
     concat (map (\<lambda>c. byte_events backlight (ord c) LCD_CHR) (shown message))"

text \<open>The window of the marquee at a scroll position, read with wraparound.\<close>

definition window_at :: "pystr \<Rightarrow> int \<Rightarrow> pystr" where
  "window_at scroll_text pos =
     map (\<lambda>i. scroll_text ! nat ((pos + i) mod len scroll_text)) (range_py LCD_WIDTH)"

text \<open>
  The windows of a whole \<open>marquee_smooth\<close>, in the order of their rendering: for each
  cycle, one window per scroll position.
\<close>

definition marquee_frames :: "pystr \<Rightarrow> int \<Rightarrow> pystr list" where
  "marquee_frames message cycles =
     (let padded = ljust message LCD_WIDTH space;
          scroll_text = padded @ replicate 16 space
      in concat (map (\<lambda>cycle. map (window_at scroll_text) (range_py (len padded + LCD_WIDTH)))
           (range_py cycles)))"


text \<open>An ASCII literal as a Python string.\<close>

definition str :: "string \<Rightarrow> pystr" where
  "str cs = map of_char cs"

text \<open>
  A concrete world for closed examples: the state after the GPIO setup of the
  script, button released (pin 20 pulled up), LED off, nothing sent yet.
\<close>

definition pins0 :: "int \<Rightarrow> level" where
  "pins0 pin = (if pin = 20 then HIGH else LOW)"

definition world0 :: world where
  "world0 = initial_world pins0"

text \<open>The same world with the button held down: pin 20 reads \<open>LOW\<close>.\<close>

definition pressed0 :: world where
  "pressed0 = world0\<lparr>gpio := (gpio world0)(20 := LOW)\<rparr>"

section \<open>Properties\<close>

subsection \<open>Statements as emitted events\<close>

lemma seq_emit: "seq (emit a) (emit b) = emit (a @ b)"
  by (rule ext) (simp add: seq_def emit_def)

lemma bus_write_byte_emit: "bus_write_byte addr data = emit [BusWrite addr data]"
  by (rule ext) (simp add: bus_write_byte_def emit_def)

lemma time_sleep_emit:
  assumes "0 \<le> d" and "d \<le> 9223372036"
  shows "time_sleep d = emit [Sleep d]"
proof -
  have "d * 10 ^ 9 \<le> 9223372036 * 10 ^ 9"
    using assms(2) by (simp add: mult_right_mono)
  then have fits: "\<not> 2 ^ 63 - 1 < d * 10 ^ 9"
    by simp
  have "0 \<le> d * 10 ^ 9"
    using assms(1) by simp
  then have above: "\<not> d * 10 ^ 9 < - (2 ^ 63)"
    by simp
  show ?thesis
    using assms(1) by (intro ext) (simp only: time_sleep_def emit_def fits above, simp)
qed

lemma E_DELAY_emit: "time_sleep E_DELAY = emit [Sleep E_DELAY]"
  by (rule time_sleep_emit) (simp_all add: E_DELAY_def)

lemma E_PULSE_emit: "time_sleep E_PULSE = emit [Sleep E_PULSE]"
  by (rule time_sleep_emit) (simp_all add: E_PULSE_def)

lemma lcd_toggle_enable_emit: "lcd_toggle_enable bits = emit (latch_events bits)"
  by (simp add: lcd_toggle_enable_def latch_events_def bus_write_byte_emit
      E_DELAY_emit E_PULSE_emit seq_emit)

lemma lcd_byte_emit:
  "lcd_byte bits mode s = emit (byte_events (LCD_BACKLIGHT s) bits mode) s"
  by (simp add: lcd_byte_def byte_events_def Let_def lcd_toggle_enable_emit
      bus_write_byte_emit seq_emit)

lemma bus_writes_append: "bus_writes (xs @ ys) = bus_writes xs @ bus_writes ys"
  by (induction xs rule: bus_writes.induct) simp_all

lemma bus_writes_byte_events: "length (bus_writes (byte_events bl bits mode)) = 6"
  by (simp add: byte_events_def latch_events_def Let_def)

subsection \<open>Bits\<close>

lemma enable_set: "bits OR ENABLE = set_bit 2 bits"
  by (simp add: ENABLE_def set_bit_eq_or)

lemma enable_clear: "bits AND NOT ENABLE = unset_bit 2 bits"
  by (simp add: ENABLE_def unset_bit_eq_and_not)

lemma F0_mask: "(0xF0::int) = push_bit 4 (mask 4)"
  by (simp add: mask_eq_exp_minus_1 push_bit_eq_mult)

lemma hi_nibble: "(b::int) AND 0xF0 = push_bit 4 (take_bit 4 (drop_bit 4 b))"
  unfolding F0_mask by (rule bit_eqI) (auto simp: bit_simps)

lemma lo_nibble: "push_bit 4 (b::int) AND 0xF0 = push_bit 4 (take_bit 4 b)"
  unfolding F0_mask by (rule bit_eqI) (auto simp: bit_simps)

lemma hi_mod: "(b mod 256) AND 0xF0 = (b::int) AND 0xF0"
proof -
  have "b mod 256 = take_bit 8 b"
    by (simp add: take_bit_eq_mod)
  then show ?thesis
    unfolding F0_mask by (simp, intro bit_eqI) (auto simp: bit_simps)
qed

lemma lo_mod: "push_bit 4 (b mod 256) AND 0xF0 = push_bit 4 (b::int) AND 0xF0"
proof -
  have "b mod 256 = take_bit 8 b"
    by (simp add: take_bit_eq_mod)
  then show ?thesis
    unfolding F0_mask by (simp, intro bit_eqI) (auto simp: bit_simps)
qed

subsection \<open>Loops\<close>

lemma for_each_emit:
  "(\<And>x s. x \<in> set xs \<Longrightarrow> body x s = emit (f (LCD_BACKLIGHT s) x) s) \<Longrightarrow>
   for_each xs body s = emit (concat (map (f (LCD_BACKLIGHT s)) xs)) s"
proof (induction xs arbitrary: s)
  case Nil
  then show ?case by (simp add: emit_def)
next
  case (Cons x xs)
  have step: "body x s = emit (f (LCD_BACKLIGHT s) x) s"
    using Cons.prems by simp
  have rest: "for_each xs body s' = emit (concat (map (f (LCD_BACKLIGHT s')) xs)) s'" for s'
    using Cons.IH Cons.prems by simp
  show ?case
    by (simp add: step rest emit_def)
qed

lemma for_each_append:
  "for_each (xs @ ys) body s =
     (case for_each xs body s of Inl e \<Rightarrow> Inl e | Inr s' \<Rightarrow> for_each ys body s')"
  by (induction xs arbitrary: s) (simp_all split: sum.splits)

lemma for_each_concat_map:
  "for_each (concat (map g xs)) body s = for_each xs (\<lambda>x. for_each (g x) body) s"
  by (induction xs arbitrary: s) (simp_all add: for_each_append split: sum.splits)

lemma for_each_map_run:
  "for_each (map f xs) body s = for_each xs (\<lambda>x. body (f x)) s"
  by (induction xs arbitrary: s) (simp_all split: sum.splits)

lemma for_each_map: "for_each (map f xs) body = for_each xs (\<lambda>x. body (f x))"
  by (rule ext) (rule for_each_map_run)


lemma getitem_in_range: "0 \<le> i \<Longrightarrow> i < len s \<Longrightarrow> getitem s i = Inr (s ! nat i)"
  by (simp add: getitem_def)

lemma set_range_py: "i \<in> set (range_py n) \<longleftrightarrow> 0 \<le> i \<and> i < n"
  by (auto simp: range_py_def image_iff intro: bexI [of _ "nat i"])

lemma len_ljust: "len (ljust s w c) = max (len s) w"
  by (auto simp: len_def ljust_def)

lemma map_nth_range_py:
  "int n \<le> len s \<Longrightarrow> map (\<lambda>i. s ! nat i) (range_py (int n)) = take n s"
  by (auto simp: range_py_def len_def list_eq_iff_nth_eq)

subsection \<open>Rendering a line\<close>

lemma lcd_string_emit:
  "lcd_string message line s = emit (string_events (LCD_BACKLIGHT s) message line) s"
proof -
  let ?m = "ljust message LCD_WIDTH space"
  let ?body = "\<lambda>i s. case getitem ?m i of Inl e \<Rightarrow> Inl e | Inr c \<Rightarrow> lcd_byte (ord c) LCD_CHR s"
  have long: "LCD_WIDTH \<le> len ?m"
    by (simp add: len_ljust)
  have body: "?body i t = emit (byte_events (LCD_BACKLIGHT t) (ord (?m ! nat i)) LCD_CHR) t"
    if "i \<in> set (range_py LCD_WIDTH)" for i t
  proof -
    from that long have "0 \<le> i" "i < len ?m"
      by (auto simp: set_range_py)
    then show ?thesis
      by (simp add: getitem_in_range lcd_byte_emit)
  qed
  have loop: "for_each (range_py LCD_WIDTH) ?body t =
      emit (concat (map (\<lambda>i. byte_events (LCD_BACKLIGHT t) (ord (?m ! nat i)) LCD_CHR)
        (range_py LCD_WIDTH))) t" for t
    by (rule for_each_emit [where f = "\<lambda>bl i. byte_events bl (ord (?m ! nat i)) LCD_CHR"])
       (rule body)
  have chars: "map (\<lambda>i. ?m ! nat i) (range_py LCD_WIDTH) = shown message"
    using map_nth_range_py [of 16 ?m] long by (simp add: shown_def LCD_WIDTH_def)
  have "map (\<lambda>i. byte_events bl (ord (?m ! nat i)) LCD_CHR) (range_py LCD_WIDTH) =
      map (\<lambda>c. byte_events bl (ord c) LCD_CHR) (shown message)" for bl
    unfolding chars [symmetric] by (simp add: comp_def)
  then show ?thesis
    by (simp add: lcd_string_def Let_def seq_def lcd_byte_emit loop string_events_def emit_def)
qed

lemma shown_cases:
  "shown message =
     (if length message \<le> 16 then message @ replicate (16 - length message) space
      else take 16 message)"
  by (simp add: shown_def ljust_def LCD_WIDTH_def len_def nat_diff_distrib')

lemma length_shown: "length (shown message) = 16"
  by (simp add: shown_cases)

subsection \<open>The marquee\<close>

lemma build_window_ok:
  "0 < len st \<Longrightarrow>
   build_window st pos is w = Inr (w @ map (\<lambda>i. st ! nat ((pos + i) mod len st)) is)"
proof (induction "is" arbitrary: w)
  case Nil
  then show ?case by simp
next
  case (Cons i "is")
  from Cons.prems have "0 \<le> (pos + i) mod len st" "(pos + i) mod len st < len st"
    by simp_all
  then have "getitem st ((pos + i) mod len st) = Inr (st ! nat ((pos + i) mod len st))"
    by (rule getitem_in_range)
  with Cons show ?case
    by (simp add: mod_py_def)
qed

lemma build_window_window_at:
  "0 < len st \<Longrightarrow> build_window st pos (range_py LCD_WIDTH) [] = Inr (window_at st pos)"
  by (simp add: build_window_ok window_at_def)

lemma pad_if:
  "(if len m < LCD_WIDTH then ljust m LCD_WIDTH space else m) = ljust m LCD_WIDTH space"
  by (simp add: ljust_def)

text \<open>
  Whatever the delay, a run of \<open>marquee_smooth\<close> is the rendering of its frames one
  after the other, each followed by the pause; an exception of the pause ends both.
\<close>

lemma marquee_smooth_frames_run:
  "marquee_smooth message line delay cycles s =
     for_each (marquee_frames message cycles)
       (\<lambda>window. seq (lcd_string window line) (time_sleep delay)) s"
proof -
  let ?p = "ljust message LCD_WIDTH space"
  let ?st = "?p @ replicate (nat LCD_WIDTH) space"
  let ?n = "len ?p + LCD_WIDTH"
  let ?frame = "\<lambda>window. seq (lcd_string window line) (time_sleep delay)"
  let ?body = "\<lambda>pos s. case build_window ?st pos (range_py LCD_WIDTH) [] of
                          Inl e \<Rightarrow> Inl e
                        | Inr window \<Rightarrow> seq (lcd_string window line) (time_sleep delay) s"
  have pos: "0 < len ?st"
    by (simp add: len_def LCD_WIDTH_def)
  have body: "?body = (\<lambda>pos. ?frame (window_at ?st pos))"
    by (intro ext) (simp add: build_window_window_at [OF pos])
  have st16: "?st = ?p @ replicate 16 space"
    by (simp add: LCD_WIDTH_def)
  have "for_each (marquee_frames message cycles) ?frame s =
      for_each (range_py cycles) (\<lambda>cycle. for_each (range_py ?n) ?body) s"
    unfolding body marquee_frames_def Let_def st16 [symmetric]
    by (simp only: for_each_concat_map for_each_map)
  then show ?thesis
    unfolding marquee_smooth_def Let_def pad_if by simp
qed






subsection \<open>The nibble transfer\<close>

text \<open>
  C6. The enable-latch pulse on a byte \<open>bits\<close> is exactly: sleep the settle delay,
  write \<open>bits\<close> with the enable bit (bit 2) set, sleep the pulse width, write \<open>bits\<close>
  with the enable bit cleared, sleep the settle delay. Both delays are 0.5 ms, hence at
  least 0.5 ms.
\<close>

theorem lcd_toggle_enable_sequence:
  "lcd_toggle_enable bits s =
     Inr (s\<lparr>trace := trace s @
       [Sleep (5 / 10000), BusWrite 0x27 (set_bit 2 bits), Sleep (5 / 10000),
        BusWrite 0x27 (unset_bit 2 bits), Sleep (5 / 10000)]\<rparr>)
   \<and> E_DELAY = 5 / 10000 \<and> E_PULSE = 5 / 10000
   \<and> E_DELAY \<ge> 1 / 2000 \<and> E_PULSE \<ge> 1 / 2000"
  by (simp add: lcd_toggle_enable_emit emit_def latch_events_def enable_set enable_clear
      E_DELAY_def E_PULSE_def I2C_ADDR_def)

text \<open>
  C4. \<open>lcd_byte b m\<close> first writes the upper-nibble byte, \<open>m\<close> merged with bits 4 to 7
  of \<open>b\<close> and the backlight bit, latches it, and only then writes the lower-nibble
  byte, \<open>m\<close> merged with bits 0 to 3 of \<open>b\<close> moved to bits 4 to 7 and the backlight
  bit, and latches it.
\<close>

theorem lcd_byte_upper_then_lower:
  "lcd_byte b m s =
     Inr (s\<lparr>trace := trace s @
       [BusWrite I2C_ADDR (m OR push_bit 4 (take_bit 4 (drop_bit 4 b)) OR LCD_BACKLIGHT s)] @
       latch_events (m OR push_bit 4 (take_bit 4 (drop_bit 4 b)) OR LCD_BACKLIGHT s) @
       [BusWrite I2C_ADDR (m OR push_bit 4 (take_bit 4 b) OR LCD_BACKLIGHT s)] @
       latch_events (m OR push_bit 4 (take_bit 4 b) OR LCD_BACKLIGHT s)\<rparr>)"
  by (simp add: lcd_byte_emit emit_def byte_events_def Let_def hi_nibble drop_bit_push_bit)

text \<open>
  C5, as the code has it. One \<open>lcd_byte\<close> causes six bus writes: the two nibble writes
  and, for each of the two latch pulses, the write with the enable bit set and the write
  with it cleared.
\<close>

theorem lcd_byte_six_transactions:
  "transactions (lcd_byte b m) s = Some 6"
  by (simp add: transactions_def lcd_byte_emit emit_def bus_writes_byte_events)

text \<open>
  C5, as the claim has it (four bus writes), fails: sending the letter A in character
  mode is six bus writes.
\<close>

theorem lcd_byte_four_transactions_counterexample:
  "transactions (lcd_byte 0x41 LCD_CHR) world0 \<noteq> Some 4"
  by (simp add: transactions_def lcd_byte_emit emit_def bus_writes_byte_events)

text \<open>
  C9. \<open>lcd_byte\<close> looks at the low eight bits of its argument only: for every integer
  \<open>b\<close>, also a negative one, the run on \<open>b\<close> is the run on \<open>b mod 256\<close>.
\<close>

theorem lcd_byte_low_8_bits:
  "lcd_byte b m s = lcd_byte (b mod 256) m s"
  by (simp add: lcd_byte_def hi_mod lo_mod)

subsection \<open>Initialisation and line rendering\<close>

lemma lcd_init_emit:
  "lcd_init s = emit (concat (map (\<lambda>b. byte_events (LCD_BACKLIGHT s) b LCD_CMD)
       [0x33, 0x32, 0x06, 0x0C, 0x28, 0x01]) @ [Sleep E_DELAY]) s"
  by (simp add: lcd_init_def seq_def lcd_byte_emit E_DELAY_emit emit_def)

text \<open>
  C1. \<open>lcd_init\<close> sends exactly the six command bytes 0x33, 0x32, 0x06, 0x0C, 0x28,
  0x01, in this order and in command mode, each as one byte transfer (upper nibble,
  latch, lower nibble, latch), and then sleeps the settle delay. With the backlight off,
  the bytes on the bus are the thirty-six listed: for each command the upper-nibble
  byte, the same with the enable bit set, the same with it cleared, and then the three
  for the lower nibble.
\<close>

theorem lcd_init_six_commands:
  "lcd_init s =
     Inr (s\<lparr>trace := trace s @
       concat (map (\<lambda>b. byte_events (LCD_BACKLIGHT s) b LCD_CMD)
         [0x33, 0x32, 0x06, 0x0C, 0x28, 0x01]) @ [Sleep E_DELAY]\<rparr>)
   \<and> bus_writes (concat (map (\<lambda>b. byte_events 0 b LCD_CMD)
         [0x33, 0x32, 0x06, 0x0C, 0x28, 0x01])) =
       [0x30, 0x34, 0x30, 0x30, 0x34, 0x30,
        0x30, 0x34, 0x30, 0x20, 0x24, 0x20,
        0x00, 0x04, 0x00, 0x60, 0x64, 0x60,
        0x00, 0x04, 0x00, 0xC0, 0xC4, 0xC0,
        0x20, 0x24, 0x20, 0x80, 0x84, 0x80,
        0x00, 0x04, 0x00, 0x10, 0x14, 0x10]"
  by (simp add: lcd_init_emit emit_def byte_events_def latch_events_def Let_def
      LCD_CMD_def ENABLE_def)

text \<open>
  C2. \<open>lcd_string\<close> sends the line command and then exactly sixteen character
  transfers. When the content has at most sixteen characters they carry its character
  codes in order, followed by the code of the space; when it has more, they carry its
  first sixteen characters.
\<close>

theorem lcd_string_sixteen_characters:
  "lcd_string content line s =
     Inr (s\<lparr>trace := trace s @
       byte_events (LCD_BACKLIGHT s) line LCD_CMD @
       concat (map (\<lambda>c. byte_events (LCD_BACKLIGHT s) (ord c) LCD_CHR) (shown content))\<rparr>)
   \<and> length (shown content) = 16
   \<and> shown content =
       (if len content \<le> LCD_WIDTH
        then content @ replicate (16 - length content) space
        else take 16 content)"
  using shown_cases [of content]
  by (simp add: lcd_string_emit emit_def string_events_def length_shown len_def LCD_WIDTH_def)


text \<open>
  C2 on the scenario of the specification, \<open>Hi\<close> on line 1, and on a content of
  nineteen characters.
\<close>

theorem lcd_string_sixteen_characters_witness:
  "lcd_string (str ''Hi'') LCD_LINE_1 world0 =
     Inr (world0\<lparr>trace :=
       byte_events 0 0x80 LCD_CMD @
       concat (map (\<lambda>c. byte_events 0 c LCD_CHR)
         (str ''Hi'' @ replicate 14 32))\<rparr>)
   \<and> shown (str ''Hello, world, hello'') = str ''Hello, world, he''"
  using lcd_string_sixteen_characters [of "str ''Hi''" LCD_LINE_1 world0]
    lcd_string_sixteen_characters [of "str ''Hello, world, hello''" LCD_LINE_1 world0]
  by (simp add: len_def LCD_WIDTH_def world0_def initial_world_def str_def space_def
      LCD_LINE_1_def ord_def)

subsection \<open>Frames of the marquee\<close>




lemma window_at_0:
  assumes "LCD_WIDTH \<le> len st"
  shows "window_at st 0 = take 16 st"
proof -
  have "window_at st 0 = map (\<lambda>i. st ! nat i) (range_py LCD_WIDTH)"
    unfolding window_at_def using assms by (intro map_cong) (auto simp: set_range_py)
  also have "\<dots> = take 16 st"
    using map_nth_range_py [of 16 st] assms by (simp add: LCD_WIDTH_def)
  finally show ?thesis .
qed

lemma window_at_period: "window_at st (pos + len st) = window_at st pos"
proof -
  have "pos + len st + i = pos + i + len st" for i
    by simp
  then have "(pos + len st + i) mod len st = (pos + i) mod len st" for i
    by (simp only: mod_add_self2)
  then show ?thesis
    by (simp add: window_at_def)
qed

lemma marquee_frames_nth:
  assumes "k < nat cycles" and "p < nat (max (len message) LCD_WIDTH + LCD_WIDTH)"
  shows "marquee_frames message cycles ! (k * nat (max (len message) LCD_WIDTH + LCD_WIDTH) + p) =
     window_at (ljust message LCD_WIDTH space @ replicate 16 space) (int p)"
proof -
  let ?st = "ljust message LCD_WIDTH space @ replicate 16 space"
  let ?n = "nat (max (len message) LCD_WIDTH + LCD_WIDTH)"
  let ?row = "map (window_at ?st) (range_py (int ?n))"
  have row: "length ?row = ?n"
    by (simp add: range_py_def)
  have frames: "marquee_frames message cycles = concat (replicate (nat cycles) ?row)"
    by (simp add: marquee_frames_def Let_def len_ljust range_py_def map_replicate_const
        LCD_WIDTH_def)
  have "concat (replicate c ?row) ! (k * ?n + p) = ?row ! p" if "k < c" for c
    using that
  proof (induction c arbitrary: k)
    case 0
    then show ?case by simp
  next
    case (Suc c)
    show ?case
    proof (cases k)
      case 0
      then show ?thesis using assms(2) row by (simp add: nth_append)
    next
      case (Suc j)
      with Suc.prems have "j < c" by simp
      from Suc.IH [OF this] show ?thesis
        using row Suc by (simp add: nth_append)
    qed
  qed
  from this [OF assms(1)] show ?thesis
    using assms(2) by (simp add: frames range_py_def)
qed

text \<open>
  C7. For a message shorter than the width, the scroll text has length \<open>2 * LCD_WIDTH\<close>,
  the window built at position 0 is the padded message, and so is the window built one
  full period later, at position \<open>2 * LCD_WIDTH\<close>. In the sequence of the frames that a
  call renders, frame 0 is the padded message, and frame 32, the first of the second
  cycle, is frame 0 again.
\<close>

theorem marquee_wraparound:
  assumes "len message < LCD_WIDTH"
  shows "build_window (ljust message LCD_WIDTH space @ replicate (nat LCD_WIDTH) space) 0
         (range_py LCD_WIDTH) [] = Inr (ljust message LCD_WIDTH space)
     \<and> len (ljust message LCD_WIDTH space @ replicate (nat LCD_WIDTH) space) = 2 * LCD_WIDTH
     \<and> build_window (ljust message LCD_WIDTH space @ replicate (nat LCD_WIDTH) space)
         (2 * LCD_WIDTH) (range_py LCD_WIDTH) [] = Inr (ljust message LCD_WIDTH space)
     \<and> (0 \<le> delay \<longrightarrow>
          marquee_smooth message line delay cycles s =
            for_each (marquee_frames message cycles)
              (\<lambda>window. seq (lcd_string window line) (time_sleep delay)) s)
     \<and> (1 \<le> cycles \<longrightarrow> marquee_frames message cycles ! 0 = ljust message LCD_WIDTH space)
     \<and> (2 \<le> cycles \<longrightarrow>
          marquee_frames message cycles ! 32 = marquee_frames message cycles ! 0)"
proof -
  let ?p = "ljust message LCD_WIDTH space"
  let ?st = "?p @ replicate (nat LCD_WIDTH) space"
  have lp: "length ?p = 16"
    using assms by (simp add: ljust_def len_def LCD_WIDTH_def)
  have lst: "len ?st = 2 * LCD_WIDTH"
    using lp by (simp add: len_def LCD_WIDTH_def)
  have pos: "0 < len ?st" "LCD_WIDTH \<le> len ?st"
    using lst by (simp_all add: LCD_WIDTH_def)
  have w0: "window_at ?st 0 = ?p"
    using lp by (simp add: window_at_0 [OF pos(2)])
  have w32: "window_at ?st (2 * LCD_WIDTH) = ?p"
    using window_at_period [of ?st 0] w0 by (simp add: lst)
  have n: "nat (max (len message) LCD_WIDTH + LCD_WIDTH) = 32"
    using assms by (simp add: LCD_WIDTH_def)
  have st16: "?st = ?p @ replicate 16 space"
    by (simp add: LCD_WIDTH_def)
  have f0: "marquee_frames message cycles ! 0 = ?p" if "1 \<le> cycles"
    using marquee_frames_nth [of 0 cycles 0 message] that w0 by (simp add: n st16)
  have f32: "marquee_frames message cycles ! 32 = ?p" if "2 \<le> cycles"
    using marquee_frames_nth [of 1 cycles 0 message] that w0 by (simp add: n st16)
  have run: "marquee_smooth message line delay cycles s =
      for_each (marquee_frames message cycles)
        (\<lambda>window. seq (lcd_string window line) (time_sleep delay)) s"
    by (rule marquee_smooth_frames_run)
  show ?thesis
    using f0 f32 run
    by (simp add: build_window_window_at [OF pos(1)] w0 w32 lst)
qed

text \<open>
  C7 on the message \<open>AB\<close> with two cycles.
\<close>

theorem marquee_wraparound_witness:
  "len (str ''AB'') < LCD_WIDTH \<and> (0::rat) \<le> 3 / 10 \<and> (2::int) \<le> 2
   \<and> ljust (str ''AB'') LCD_WIDTH space = str ''AB'' @ replicate 14 space
   \<and> build_window (ljust (str ''AB'') LCD_WIDTH space @ replicate (nat LCD_WIDTH) space) 0
       (range_py LCD_WIDTH) [] = Inr (str ''AB'' @ replicate 14 space)
   \<and> build_window (ljust (str ''AB'') LCD_WIDTH space @ replicate (nat LCD_WIDTH) space) 32
       (range_py LCD_WIDTH) [] = Inr (str ''AB'' @ replicate 14 space)
   \<and> marquee_frames (str ''AB'') 2 ! 0 = str ''AB'' @ replicate 14 space
   \<and> marquee_frames (str ''AB'') 2 ! 32 = marquee_frames (str ''AB'') 2 ! 0"
proof -
  have short: "len (str ''AB'') < LCD_WIDTH"
    by (simp add: len_def str_def LCD_WIDTH_def)
  have pad: "ljust (str ''AB'') LCD_WIDTH space = str ''AB'' @ replicate 14 space"
    by (simp add: ljust_def len_def str_def LCD_WIDTH_def)
  have w: "2 * LCD_WIDTH = 32"
    by (simp add: LCD_WIDTH_def)
  from marquee_wraparound [OF short, of "3 / 10" LCD_LINE_2 2 world0] short
  show ?thesis
    unfolding pad w by simp
qed

subsection \<open>The button callback\<close>

text \<open>
  C8. \<open>buttonPressed\<close> writes \<open>HIGH\<close> to pin 16 when pin 20 reads \<open>LOW\<close>, and
  \<open>LOW\<close> when pin 20 reads \<open>HIGH\<close>. The level written is a function of the level
  read in this call alone: two calls in any two worlds that read the same level write
  the same level.
\<close>

theorem buttonPressed_reflects:
  "(GPIO_input 20 s = LOW \<longrightarrow> buttonPressed pin s = GPIO_output 16 HIGH s)
   \<and> (GPIO_input 20 s = HIGH \<longrightarrow> buttonPressed pin s = GPIO_output 16 LOW s)
   \<and> gpio (buttonPressed pin s) 16 = (case gpio s 20 of LOW \<Rightarrow> HIGH | HIGH \<Rightarrow> LOW)
   \<and> (gpio s 20 = gpio t 20 \<longrightarrow>
        gpio (buttonPressed pin s) 16 = gpio (buttonPressed pin' t) 16)"
  by (cases "gpio s 20"; cases "gpio t 20")
     (simp_all add: buttonPressed_def GPIO_input_def GPIO_output_def)

text \<open>
  C8 with the button held down, with the button released, and on a second call after a
  first one.
\<close>

theorem buttonPressed_reflects_witness:
  "GPIO_input 20 pressed0 = LOW \<and> gpio (buttonPressed 20 pressed0) 16 = HIGH
   \<and> GPIO_input 20 world0 = HIGH \<and> gpio (buttonPressed 20 world0) 16 = LOW
   \<and> gpio (buttonPressed 20 (buttonPressed 20 pressed0)) 20 = gpio pressed0 20
   \<and> gpio (buttonPressed 20 (buttonPressed 20 pressed0)) 16 = gpio (buttonPressed 20 pressed0) 16"
  using buttonPressed_reflects [of pressed0 20 pressed0 20]
    buttonPressed_reflects [of world0 20 world0 20]
    buttonPressed_reflects [of "buttonPressed 20 pressed0" 20 pressed0 20]
  by (simp add: pressed0_def world0_def initial_world_def pins0_def GPIO_input_def
      GPIO_output_def)

text \<open>
  C10. The result of \<open>buttonPressed\<close> does not depend on its argument: whatever pin
  is passed, it reads pin 20 and writes pin 16, leaves every other pin as it was, and
  touches neither the bus nor the backlight.
\<close>

theorem buttonPressed_ignores_pin:
  "buttonPressed p1 s = buttonPressed p2 s
   \<and> buttonPressed p1 s =
       GPIO_output 16 (if GPIO_input 20 s = LOW then HIGH else LOW) s
   \<and> (q \<noteq> 16 \<longrightarrow> gpio (buttonPressed p1 s) q = gpio s q)
   \<and> trace (buttonPressed p1 s) = trace s
   \<and> LCD_BACKLIGHT (buttonPressed p1 s) = LCD_BACKLIGHT s"
  by (simp add: buttonPressed_def GPIO_input_def GPIO_output_def)

text \<open>
  C10 with the arguments 20 and 16.
\<close>

theorem buttonPressed_ignores_pin_witness:
  "(20::int) \<noteq> 16 \<and> buttonPressed 20 world0 = buttonPressed 16 world0
   \<and> gpio (buttonPressed 20 world0) 20 = HIGH"
proof -
  note fact = buttonPressed_ignores_pin [of 20 world0 16 20]
  from fact have same: "buttonPressed 20 world0 = buttonPressed 16 world0"
    by (rule conjunct1)
  from fact [THEN conjunct2, THEN conjunct2, THEN conjunct1]
  have "gpio (buttonPressed 20 world0) 20 = gpio world0 20"
    by simp
  then have kept: "gpio (buttonPressed 20 world0) 20 = HIGH"
    by (simp add: world0_def initial_world_def pins0_def)
  show ?thesis
    by (intro conjI) (simp, rule same, rule kept)
qed

end
